theory Spec2Isabelle
  imports Main "HOL-Library.Multiset"
begin

section \<open>Deck\<close>

text \<open>
  Card representation of the sources: a C++ \<^verbatim>\<open>int\<close>, 0 = non-face card, 1 = J, 2 = Q,
  3 = K, 4 = A. The counters are C++ \<^verbatim>\<open>int\<close>s as well; inside \<^verbatim>\<open>play()\<close> none of them exceeds
  the move limit, itself an \<^verbatim>\<open>int\<close>, so no increment overflows and they are modelled as
  \<^typ>\<open>int\<close>.
\<close>

record deck =
  cards :: "int list"

definition size_deck :: nat where
  \<comment> \<open>\<^verbatim>\<open>static constexpr int size = 52\<close>\<close>
  "size_deck = 52"

definition deck_ctor :: deck where
  \<comment> \<open>\<^verbatim>\<open>deck() : cards(size, 0)\<close>\<close>
  "deck_ctor = \<lparr>cards = replicate size_deck 0\<rparr>"

definition rank_of_char :: "char \<Rightarrow> int" where
  \<comment> \<open>the \<^verbatim>\<open>switch (str[i])\<close> of \<^verbatim>\<open>deck::from_string\<close>\<close>
  "rank_of_char c =
     (if c = CHR ''J'' then 1
      else if c = CHR ''Q'' then 2
      else if c = CHR ''K'' then 3
      else if c = CHR ''A'' then 4
      else 0)"

definition from_string :: "string \<Rightarrow> deck" where
  \<comment> \<open>test-suite.cpp, \<^verbatim>\<open>deck::from_string\<close>: the index loop runs over
      \<^verbatim>\<open>i < min(str.size(), d.cards.size())\<close> and assigns \<^verbatim>\<open>d.cards[i]\<close>\<close>
  "from_string str =
     (let dk = deck_ctor;
          dk = dk\<lparr>cards := replicate size_deck 0\<rparr>
      in dk\<lparr>cards :=
            fold (\<lambda>i cs. cs[i := rank_of_char (str ! i)])
                 [0 ..< min (length str) (length (cards dk))] (cards dk)\<rparr>)"

definition char_of_rank :: "int \<Rightarrow> char" where
  \<comment> \<open>the \<^verbatim>\<open>switch (i)\<close> of \<^verbatim>\<open>operator<<\<close>\<close>
  "char_of_rank i =
     (if i = 1 then CHR ''J''
      else if i = 2 then CHR ''Q''
      else if i = 3 then CHR ''K''
      else if i = 4 then CHR ''A''
      else CHR ''-'')"

definition deck_to_string :: "deck \<Rightarrow> string" where
  \<comment> \<open>\<^verbatim>\<open>operator<<(ostream&, const deck&)\<close>: the characters written to the stream\<close>
  "deck_to_string dk = map char_of_rank (cards dk)"

fun count_cards :: "int list \<Rightarrow> int list \<Rightarrow> int list option" where
  \<comment> \<open>first loop of \<^verbatim>\<open>deck::is_valid\<close>; \<open>None\<close> is its early \<^verbatim>\<open>return false\<close>\<close>
  "count_cards [] counts = Some counts"
| "count_cards (crd # rest) counts =
     (if crd < 0 \<or> crd > 4 then None
      else count_cards rest (counts[nat crd := counts ! nat crd + 1]))"

definition is_valid :: "deck \<Rightarrow> bool" where
  "is_valid dk =
     (case count_cards (cards dk) (replicate 5 (0::int)) of
        None \<Rightarrow> False
      | Some counts \<Rightarrow>
          if list_ex (\<lambda>i. counts ! i \<noteq> 4) [1 ..< 5] then False
          else if length (cards dk) \<noteq> size_deck then False
          else True)"

section \<open>Players and the game state machine (test-suite.cpp, main-imp.cpp)\<close>

record player =
  id_player :: int
  cards_player :: "int list"

definition player_ctor :: "int \<Rightarrow> player" where
  "player_ctor i = \<lparr>id_player = i, cards_player = []\<rparr>"

text \<open>\<^verbatim>\<open>player* active_player\<close> only ever holds \<^verbatim>\<open>&p1\<close> or \<^verbatim>\<open>&p2\<close>.\<close>

datatype player_ref = P1 | P2

record game =
  d :: deck
  p1 :: player
  p2 :: player
  cards_played_total :: int
  tricks :: int
  pile :: "int list"
  remaining_penalties :: int
  face_card_active :: bool
  active_player :: player_ref
  max_moves :: int
  verbose :: bool
  seen_states :: "(int list \<times> int list) set"

definition game_ctor :: "deck \<Rightarrow> int \<Rightarrow> bool \<Rightarrow> game" where
  \<comment> \<open>test-suite.cpp constructor; \<^verbatim>\<open>active_player\<close> is uninitialised until \<^verbatim>\<open>start()\<close>
      assigns it, the model puts \<open>P1\<close> there\<close>
  "game_ctor initial_deck move_limit verbose_output =
     \<lparr>d = initial_deck, p1 = player_ctor 1, p2 = player_ctor 2,
      cards_played_total = 0, tricks = 0, pile = [], remaining_penalties = 0,
      face_card_active = False, active_player = P1,
      max_moves = move_limit, verbose = verbose_output, seen_states = {}\<rparr>"

definition split_cards :: "game \<Rightarrow> game" where
  "split_cards g =
     (let mid = length (cards (d g)) div 2
      in g\<lparr>p1 := (p1 g)\<lparr>cards_player := take mid (cards (d g))\<rparr>,
           p2 := (p2 g)\<lparr>cards_player := drop mid (cards (d g))\<rparr>\<rparr>)"

definition start :: "game \<Rightarrow> game" where
  \<comment> \<open>test-suite.cpp \<^verbatim>\<open>game::start\<close> (the verbose printing is console output only)\<close>
  "start g =
     (split_cards g)\<lparr>active_player := P1, cards_played_total := 0, tricks := 0,
                     pile := [], remaining_penalties := 0, face_card_active := False,
                     seen_states := {}\<rparr>"

definition is_game_over :: "game \<Rightarrow> bool" where
  "is_game_over g \<longleftrightarrow> cards_player (p1 g) = [] \<or> cards_player (p2 g) = []"

definition active :: "game \<Rightarrow> player" where
  \<comment> \<open>\<^verbatim>\<open>*active_player\<close>\<close>
  "active g = (case active_player g of P1 \<Rightarrow> p1 g | P2 \<Rightarrow> p2 g)"

definition set_active_cards :: "int list \<Rightarrow> game \<Rightarrow> game" where
  \<comment> \<open>a write to \<^verbatim>\<open>active_player->cards\<close>\<close>
  "set_active_cards cs g =
     (case active_player g of
        P1 \<Rightarrow> g\<lparr>p1 := (p1 g)\<lparr>cards_player := cs\<rparr>\<rparr>
      | P2 \<Rightarrow> g\<lparr>p2 := (p2 g)\<lparr>cards_player := cs\<rparr>\<rparr>)"

definition switch_player :: "game \<Rightarrow> game" where
  "switch_player g = g\<lparr>active_player := (if active_player g = P1 then P2 else P1)\<rparr>"

definition turn :: "game \<Rightarrow> game" where
  \<comment> \<open>\<^verbatim>\<open>game::turn\<close> of test-suite.cpp; main-imp.cpp has the same statements without the
      verbose console output\<close>
  "turn g =
     (case cards_player (active g) of
        [] \<Rightarrow> g
      | crd # rest \<Rightarrow>
          let g = set_active_cards rest g;
              g = g\<lparr>pile := pile g @ [crd]\<rparr>;
              g = g\<lparr>cards_played_total := cards_played_total g + 1\<rparr>
          in if crd > 0 then
               switch_player (g\<lparr>face_card_active := True, remaining_penalties := crd\<rparr>)
             else if face_card_active g then
               (let g = g\<lparr>remaining_penalties := remaining_penalties g - 1\<rparr>
                in if remaining_penalties g = 0 then
                     (let g = g\<lparr>tricks := tricks g + 1, face_card_active := False\<rparr>;
                          g = set_active_cards (cards_player (active g) @ pile g) g
                      in g\<lparr>pile := []\<rparr>)
                   else switch_player g)
             else switch_player g)"

section \<open>The first simulator (src/unnamed/part_000)\<close>

record player_m = player +
  played_moves :: int

record game_m =
  d_m :: deck
  p1_m :: player_m
  p2_m :: player_m
  game_over :: bool
  tricks_m :: int
  cards_played_total_m :: int
  face_card_active_m :: bool
  remaining_turns_for_trick :: int
  cards_played :: "int list"
  active_player_m :: player_ref

definition active_m :: "game_m \<Rightarrow> player_m" where
  "active_m g = (case active_player_m g of P1 \<Rightarrow> p1_m g | P2 \<Rightarrow> p2_m g)"

definition set_active_cards_m :: "int list \<Rightarrow> game_m \<Rightarrow> game_m" where
  "set_active_cards_m cs g =
     (case active_player_m g of
        P1 \<Rightarrow> g\<lparr>p1_m := (p1_m g)\<lparr>cards_player := cs\<rparr>\<rparr>
      | P2 \<Rightarrow> g\<lparr>p2_m := (p2_m g)\<lparr>cards_player := cs\<rparr>\<rparr>)"

definition switch_player_m :: "game_m \<Rightarrow> game_m" where
  \<comment> \<open>compares the ids, not the pointers\<close>
  "switch_player_m g =
     (if id_player (active_m g) = id_player (p1_m g)
      then g\<lparr>active_player_m := P2\<rparr> else g\<lparr>active_player_m := P1\<rparr>)"

definition turn_m :: "game_m \<Rightarrow> game_m" where
  "turn_m g =
     (case cards_player (active_m g) of
        [] \<Rightarrow> g\<lparr>game_over := True\<rparr>
      | crd # rest \<Rightarrow>
          let g = set_active_cards_m rest g;
              g = g\<lparr>cards_played := cards_played g @ [crd]\<rparr>;
              g = g\<lparr>cards_played_total_m := cards_played_total_m g + 1\<rparr>;
              face_card_played = (crd > 0);
              g = (if crd > 0
                   then g\<lparr>face_card_active_m := True, remaining_turns_for_trick := crd\<rparr>
                   else g\<lparr>remaining_turns_for_trick := remaining_turns_for_trick g - 1\<rparr>)
          in if \<not> face_card_active_m g \<or> face_card_played then switch_player_m g
             else if remaining_turns_for_trick g = 0 \<and> face_card_active_m g then
               (let g = g\<lparr>tricks_m := tricks_m g + 1, face_card_active_m := False\<rparr>;
                    g = switch_player_m g;
                    g = set_active_cards_m (cards_player (active_m g) @ cards_played g) g
                in g\<lparr>cards_played := []\<rparr>)
             else g)"

definition game_m_ctor :: game_m where
  \<comment> \<open>\<^verbatim>\<open>game(): d(*(new deck)), p1(*(new player(1))), p2(*(new player(2)))\<close> with the
      default member initialisers; \<^verbatim>\<open>active_player\<close> is assigned by \<^verbatim>\<open>start()\<close>\<close>
  "game_m_ctor =
     \<lparr>d_m = \<lparr>cards = []\<rparr>,
      p1_m = \<lparr>id_player = 1, cards_player = [], played_moves = 0\<rparr>,
      p2_m = \<lparr>id_player = 2, cards_player = [], played_moves = 0\<rparr>,
      game_over = False, tricks_m = 0, cards_played_total_m = 0,
      face_card_active_m = False, remaining_turns_for_trick = 0,
      cards_played = [], active_player_m = P1\<rparr>"

definition split_cards_m :: "game_m \<Rightarrow> game_m" where
  "split_cards_m g =
     g\<lparr>p1_m := (p1_m g)\<lparr>cards_player := take (size_deck div 2) (cards (d_m g))\<rparr>,
       p2_m := (p2_m g)\<lparr>cards_player := drop (size_deck div 2) (cards (d_m g))\<rparr>\<rparr>"

definition start_m :: "int list \<Rightarrow> game_m \<Rightarrow> game_m" where
  \<comment> \<open>\<^verbatim>\<open>d.shuffle()\<close> draws from \<^verbatim>\<open>rand()\<close>; the arrangement it leaves in \<^verbatim>\<open>d.cards\<close> is the
      parameter \<open>shuffled\<close>\<close>
  "start_m shuffled g =
     (let g = g\<lparr>d_m := (d_m g)\<lparr>cards := shuffled\<rparr>\<rparr>;
          g = g\<lparr>active_player_m := P1\<rparr>
      in split_cards_m g)"

section \<open>Simulation drivers\<close>

definition game_imp_ctor :: game where
  \<comment> \<open>main-imp.cpp: \<^verbatim>\<open>game() : p1(1), p2(2), rng(...)\<close>, \<^verbatim>\<open>int max_moves = 10000\<close>; this
      variant has no \<^verbatim>\<open>verbose\<close> member\<close>
  "game_imp_ctor =
     \<lparr>d = deck_ctor, p1 = player_ctor 1, p2 = player_ctor 2,
      cards_played_total = 0, tricks = 0, pile = [], remaining_penalties = 0,
      face_card_active = False, active_player = P1,
      max_moves = 10000, verbose = False, seen_states = {}\<rparr>"

definition start_imp :: "int list \<Rightarrow> game \<Rightarrow> game" where
  \<comment> \<open>main-imp.cpp \<^verbatim>\<open>game::start\<close>; \<^verbatim>\<open>d.shuffle(rng)\<close> draws from the random generator, the
      arrangement it leaves in \<^verbatim>\<open>d.cards\<close> is the parameter \<open>shuffled\<close>\<close>
  "start_imp shuffled g =
     (split_cards (g\<lparr>d := (d g)\<lparr>cards := shuffled\<rparr>\<rparr>))
       \<lparr>active_player := P1, cards_played_total := 0, tricks := 0,
        pile := [], remaining_penalties := 0, face_card_active := False,
        seen_states := {}\<rparr>"

lemma max_moves_turn: "max_moves (turn g) = max_moves g"
  by (cases "active_player g")
     (simp_all add: turn_def active_def set_active_cards_def switch_player_def Let_def
        split: list.splits)

lemma cards_played_total_turn:
  "cards_player (active g) \<noteq> [] \<Longrightarrow> cards_played_total (turn g) = cards_played_total g + 1"
  by (cases "active_player g")
     (simp_all add: turn_def active_def set_active_cards_def switch_player_def Let_def
        split: list.splits)

lemma active_nonempty: "\<not> is_game_over g \<Longrightarrow> cards_player (active g) \<noteq> []"
  by (cases "active_player g") (simp_all add: is_game_over_def active_def)

lemma active_seen_states [simp]: "active (g\<lparr>seen_states := S\<rparr>) = active g"
  by (cases "active_player g") (simp_all add: active_def)

lemma is_game_over_seen_states [simp]: "is_game_over (g\<lparr>seen_states := S\<rparr>) = is_game_over g"
  by (simp add: is_game_over_def)

text \<open>
  \<^verbatim>\<open>game::play\<close> of test-suite.cpp. \<open>play_loop\<close> is the \<^verbatim>\<open>while\<close> loop: it returns the flag
  \<^verbatim>\<open>cycled\<close> and the state in which the loop was left. Every iteration that does not
  break plays one card, so the distance to the move limit decreases.
\<close>

function play_loop :: "game \<Rightarrow> bool \<times> game" where
  "play_loop g =
     (if \<not> is_game_over g \<and> cards_played_total g < max_moves g then
        (let state = (cards_player (p1 g), cards_player (p2 g))
         in if state \<in> seen_states g then (True, g)
            else play_loop (turn (g\<lparr>seen_states := insert state (seen_states g)\<rparr>)))
      else (False, g))"
  by pat_completeness auto
termination
proof (relation "measure (\<lambda>g. nat (max_moves g - cards_played_total g))")
  show "wf (measure (\<lambda>g. nat (max_moves g - cards_played_total g)))" by simp
next
  fix g :: game and state
  assume a: "\<not> is_game_over g \<and> cards_played_total g < max_moves g"
  let ?g = "g\<lparr>seen_states := insert state (seen_states g)\<rparr>"
  from a have "cards_player (active ?g) \<noteq> []" by (simp add: active_nonempty)
  then have "cards_played_total (turn ?g) = cards_played_total g + 1"
    by (simp add: cards_played_total_turn)
  with a show "(turn ?g, g) \<in> measure (\<lambda>g. nat (max_moves g - cards_played_total g))"
    by (simp add: max_moves_turn)
qed

declare play_loop.simps [simp del]

lemma play_loop_stop:
  "is_game_over g \<or> \<not> cards_played_total g < max_moves g \<Longrightarrow> play_loop g = (False, g)"
  by (subst play_loop.simps) auto

lemma play_loop_cycle:
  "\<not> is_game_over g \<Longrightarrow> cards_played_total g < max_moves g \<Longrightarrow>
   (cards_player (p1 g), cards_player (p2 g)) \<in> seen_states g \<Longrightarrow> play_loop g = (True, g)"
  by (subst play_loop.simps) simp

lemma play_loop_continue:
  "\<not> is_game_over g \<Longrightarrow> cards_played_total g < max_moves g \<Longrightarrow>
   (cards_player (p1 g), cards_player (p2 g)) \<notin> seen_states g \<Longrightarrow>
   play_loop g = play_loop (turn (g\<lparr>seen_states :=
        insert (cards_player (p1 g), cards_player (p2 g)) (seen_states g)\<rparr>))"
  by (subst play_loop.simps) simp

definition play :: "game \<Rightarrow> int \<times> int \<times> int \<times> bool" where
  "play g =
     (let (cycled, g) = play_loop g;
          winner = (if is_game_over g then (if cards_player (p1 g) = [] then 2 else 1) else - 1)
      in (winner, cards_played_total g, tricks g, cycled))"

text \<open>
  \<^verbatim>\<open>game::play\<close> of main-imp.cpp. \<open>Inl\<close> is the \<^verbatim>\<open>return\<close> inside the loop (a repeated pair
  of hands), \<open>Inr\<close> the state in which the loop condition failed.
\<close>

function play_imp_loop :: "game \<Rightarrow> (int \<times> int \<times> int \<times> deck) + game" where
  "play_imp_loop g =
     (if \<not> is_game_over g \<and> cards_played_total g < max_moves g then
        (let state = (cards_player (p1 g), cards_player (p2 g))
         in if state \<in> seen_states g then Inl (- 1, cards_played_total g, tricks g, d g)
            else play_imp_loop (turn (g\<lparr>seen_states := insert state (seen_states g)\<rparr>)))
      else Inr g)"
  by pat_completeness auto
termination
proof (relation "measure (\<lambda>g. nat (max_moves g - cards_played_total g))")
  show "wf (measure (\<lambda>g. nat (max_moves g - cards_played_total g)))" by simp
next
  fix g :: game and state
  assume a: "\<not> is_game_over g \<and> cards_played_total g < max_moves g"
  let ?g = "g\<lparr>seen_states := insert state (seen_states g)\<rparr>"
  from a have "cards_player (active ?g) \<noteq> []" by (simp add: active_nonempty)
  then have "cards_played_total (turn ?g) = cards_played_total g + 1"
    by (simp add: cards_played_total_turn)
  with a show "(turn ?g, g) \<in> measure (\<lambda>g. nat (max_moves g - cards_played_total g))"
    by (simp add: max_moves_turn)
qed

declare play_imp_loop.simps [simp del]

lemma play_imp_loop_stop:
  "is_game_over g \<or> \<not> cards_played_total g < max_moves g \<Longrightarrow> play_imp_loop g = Inr g"
  by (subst play_imp_loop.simps) auto

lemma play_imp_loop_cycle:
  "\<not> is_game_over g \<Longrightarrow> cards_played_total g < max_moves g \<Longrightarrow>
   (cards_player (p1 g), cards_player (p2 g)) \<in> seen_states g \<Longrightarrow>
   play_imp_loop g = Inl (- 1, cards_played_total g, tricks g, d g)"
  by (subst play_imp_loop.simps) simp

lemma play_imp_loop_continue:
  "\<not> is_game_over g \<Longrightarrow> cards_played_total g < max_moves g \<Longrightarrow>
   (cards_player (p1 g), cards_player (p2 g)) \<notin> seen_states g \<Longrightarrow>
   play_imp_loop g = play_imp_loop (turn (g\<lparr>seen_states :=
        insert (cards_player (p1 g), cards_player (p2 g)) (seen_states g)\<rparr>))"
  by (subst play_imp_loop.simps) simp

definition play_imp :: "game \<Rightarrow> int \<times> int \<times> int \<times> deck" where
  "play_imp g =
     (case play_imp_loop g of
        Inl r \<Rightarrow> r
      | Inr g \<Rightarrow> (id_player (active g), cards_played_total g, tricks g, d g))"

fun turns :: "nat \<Rightarrow> game \<Rightarrow> game" where
  \<comment> \<open>\<open>n\<close> successive calls of \<^verbatim>\<open>turn()\<close>\<close>
  "turns 0 g = g"
| "turns (Suc n) g = turns n (turn g)"

definition penalty_has_pile :: "game \<Rightarrow> bool" where
  \<comment> \<open>while a penalty is active the pile holds at least the face card that started it\<close>
  "penalty_has_pile g \<longleftrightarrow> (\<not> face_card_active g \<or> pile g \<noteq> [])"

text \<open>
  The outcome categories of a run of test-suite.cpp's \<^verbatim>\<open>play()\<close>, read off the returned
  record and the move limit: a winner is reported (\<^verbatim>\<open>winner > 0\<close>, the test of \<^verbatim>\<open>main()\<close>), the
  flag \<^verbatim>\<open>cycled\<close> is set, the returned move count has reached the move limit.
\<close>

definition winner_determined :: "game \<Rightarrow> bool" where
  "winner_determined g \<longleftrightarrow> fst (play g) > 0"

definition cycle_detected :: "game \<Rightarrow> bool" where
  "cycle_detected g \<longleftrightarrow> snd (snd (snd (play g)))"

definition limit_reached :: "game \<Rightarrow> bool" where
  "limit_reached g \<longleftrightarrow> max_moves g \<le> fst (snd (play g))"

definition total_cards :: "game \<Rightarrow> nat" where
  \<comment> \<open>cards in player 1's hand, in player 2's hand and on the pile\<close>
  "total_cards g = length (cards_player (p1 g)) + length (cards_player (p2 g)) + length (pile g)"

section \<open>Batch harness: collecting the results (main-imp.cpp, main)\<close>

text \<open>
  The state of the collection loop of \<^verbatim>\<open>main()\<close>: the running best, the number of results
  taken, and the lines appended to \<^verbatim>\<open>high_score.txt\<close> by this run, each line with its four
  comma-separated fields \<^verbatim>\<open>high_score, tricks, winner, deck\<close>. Console output is left out.
\<close>

record harness =
  high_score :: int
  games_completed :: int
  file_lines :: "(int \<times> int \<times> int \<times> string) list"

text \<open>\<^verbatim>\<open>result.get()\<close> returns the tuple of the simulation or throws; the loop catches.\<close>

datatype 'a future = Ready 'a | Failed

definition harness_init :: harness where
  "harness_init = \<lparr>high_score = 0, games_completed = 0, file_lines = []\<rparr>"

text \<open>One iteration of \<^verbatim>\<open>for (auto& result : results)\<close>.\<close>

fun collect :: "harness \<Rightarrow> (int \<times> int \<times> int \<times> deck) future \<Rightarrow> harness" where
  "collect h Failed = h"
| "collect h (Ready (winner, n, trk, game_deck)) =
     (let h = h\<lparr>games_completed := games_completed h + 1\<rparr>
      in if winner > 0 \<and> n > high_score h then
           (let h = h\<lparr>high_score := n\<rparr>
            in h\<lparr>file_lines := file_lines h @ [(high_score h, trk, winner, deck_to_string game_deck)]\<rparr>)
         else h)"

definition collect_results ::
  "harness \<Rightarrow> (int \<times> int \<times> int \<times> deck) future list \<Rightarrow> harness" where
  "collect_results h results = foldl collect h results"

text \<open>The move counts of the results that came back with \<^verbatim>\<open>winner > 0\<close>.\<close>

fun recorded_moves :: "(int \<times> int \<times> int \<times> deck) future list \<Rightarrow> int list" where
  "recorded_moves [] = []"
| "recorded_moves (Failed # rs) = recorded_moves rs"
| "recorded_moves (Ready (winner, n, trk, game_deck) # rs) =
     (if winner > 0 then n # recorded_moves rs else recorded_moves rs)"

section \<open>Concrete decks and states used as test points\<close>

definition false_cycle_deck_string :: string where
  \<comment> \<open>a valid deck: four of each of J, Q, K, A among 52 cards\<close>
  "false_cycle_deck_string = ''--A---KK-A-------------J-AQJ-QA--QQ--------K--KJ--J-''"

definition jack_deck_string :: string where
  \<comment> \<open>\<^verbatim>\<open>"J" + "-"*51\<close>\<close>
  "jack_deck_string = CHR ''J'' # replicate 51 (CHR ''-'')"

definition g_after_jack :: game where
  \<comment> \<open>test-suite.cpp: the state after player 1 has led the Jack of \<open>jack_deck_string\<close>\<close>
  "g_after_jack = turn (start (game_ctor (from_string jack_deck_string) 1000000 False))"

definition faces_first_deck :: "int list" where
  \<comment> \<open>a valid arrangement: \<^verbatim>\<open>JJJJQQQQKKKKAAAA\<close> followed by 36 plain cards\<close>
  "faces_first_deck = [1,1,1,1,2,2,2,2,3,3,3,3,4,4,4,4] @ replicate 36 0"

definition gm_after_jack :: game_m where
  \<comment> \<open>part_000: the state after player 1 has led the first Jack of \<open>faces_first_deck\<close>\<close>
  "gm_after_jack = turn_m (start_m faces_first_deck game_m_ctor)"

definition jack_game :: game where
  \<comment> \<open>test-suite.cpp: the game on \<open>jack_deck_string\<close> after \<^verbatim>\<open>start()\<close>, move limit as in
      \<^verbatim>\<open>main()\<close>\<close>
  "jack_game = start (game_ctor (from_string jack_deck_string) 1000000 False)"

definition false_cycle_game :: game where
  "false_cycle_game = start (game_ctor (from_string false_cycle_deck_string) 1000000 False)"

definition last_card_deck_string :: string where
  \<comment> \<open>a valid deck on which, after 51 moves, player 1 pays the last penalty card with the
      only card left in hand\<close>
  "last_card_deck_string = ''--JAQJ----------QA-A-JKKK---Q-------------Q-----A-KJ''"

definition g_last_card :: game where
  "g_last_card =
     turns 51 (start (game_ctor (from_string last_card_deck_string) 1000000 False))"

definition limit_run :: game where
  \<comment> \<open>test-suite.cpp: a game with move limit 10\<close>
  "limit_run = start (game_ctor \<lparr>cards = faces_first_deck\<rparr> 10 False)"

definition win_at_limit_game :: game where
  \<comment> \<open>test-suite.cpp: the valid deck \<open>faces_first_deck\<close> with move limit 101\<close>
  "win_at_limit_game = start (game_ctor \<lparr>cards = faces_first_deck\<rparr> 101 False)"

definition limit_run_imp :: game where
  \<comment> \<open>main-imp.cpp: a started game whose \<^verbatim>\<open>max_moves\<close> member holds 10\<close>
  "limit_run_imp = (start_imp faces_first_deck game_imp_ctor)\<lparr>max_moves := 10\<rparr>"

definition cycled_result :: "int \<times> int \<times> int \<times> deck" where
  \<comment> \<open>main-imp.cpp: what \<^verbatim>\<open>run_game_simulation()\<close> returns when the shuffle leaves
      \<open>false_cycle_deck_string\<close>\<close>
  "cycled_result = play_imp (start_imp (cards (from_string false_cycle_deck_string)) game_imp_ctor)"

definition sample_results :: "(int \<times> int \<times> int \<times> deck) future list" where
  "sample_results =
     [Ready (2, 52, 1, from_string jack_deck_string), Failed,
      Ready (- 1, 57, 5, from_string false_cycle_deck_string),
      Ready (1, 80, 3, deck_ctor), Ready (2, 80, 4, deck_ctor)]"

definition rank5_deck :: deck where
  \<comment> \<open>52 cards, four of each face rank, and one card of rank 5\<close>
  "rank5_deck = \<lparr>cards = [1,1,1,1,2,2,2,2,3,3,3,3,4,4,4,4,5] @ replicate 35 0\<rparr>"

section \<open>Trick resolution\<close>

text \<open>
  Claim C1, as stated, does not hold of \<^verbatim>\<open>game::turn\<close> in src/unnamed/part_000: there the
  last penalty payment is followed by \<^verbatim>\<open>switch_player()\<close> and the opponent of the payer
  takes the pile. At the state after the first Jack of \<open>faces_first_deck\<close>, player 2 pays
  the single penalty card with a plain card while the penalty is active; after the turn
  the active player has changed to player 1, who holds the pile, and player 2 has only
  its 25 remaining cards.
\<close>

theorem C1_counterexample:
  "cards_player (active_m gm_after_jack) = 0 # replicate 25 0
   \<and> active_player_m gm_after_jack = P2
   \<and> face_card_active_m gm_after_jack
   \<and> remaining_turns_for_trick gm_after_jack = 1
   \<and> active_player_m (turn_m gm_after_jack) \<noteq> active_player_m gm_after_jack
   \<and> cards_player (p2_m (turn_m gm_after_jack)) = replicate 25 0
   \<and> cards_player (p1_m (turn_m gm_after_jack)) = drop 1 (take 26 faces_first_deck) @ [1, 0]"
  by code_simp

text \<open>
  Claim C1, amended. In test-suite.cpp and main-imp.cpp, a turn in which the active
  player plays a non-face card while a penalty is active and the remaining penalty count
  reaches 0 increments \<open>tricks\<close>, clears \<open>face_card_active\<close>, keeps the active player,
  appends the whole pile (the card just played last) to the back of the active player's
  hand and empties the pile. In src/unnamed/part_000 the same turn increments the trick
  count, clears the flag and empties the pile, but the active player switches and it is
  the opponent of the payer who receives the whole pile at the back of their hand.
\<close>

theorem C1_trick_resolution:
  "(cards_player (active g) = c # rest \<and> \<not> c > 0 \<and> face_card_active g
      \<and> remaining_penalties g - 1 = 0
    \<longrightarrow> tricks (turn g) = tricks g + 1 \<and> \<not> face_card_active (turn g)
        \<and> active_player (turn g) = active_player g
        \<and> cards_player (active (turn g)) = rest @ pile g @ [c]
        \<and> pile (turn g) = [])
   \<and> (cards_player (active_m gm) = cm # restm \<and> \<not> cm > 0 \<and> face_card_active_m gm
      \<and> remaining_turns_for_trick gm - 1 = 0
      \<and> id_player (p1_m gm) \<noteq> id_player (p2_m gm)
    \<longrightarrow> tricks_m (turn_m gm) = tricks_m gm + 1 \<and> \<not> face_card_active_m (turn_m gm)
        \<and> active_player_m (turn_m gm) \<noteq> active_player_m gm
        \<and> cards_player (active_m (turn_m gm)) =
            cards_player (case active_player_m gm of P1 \<Rightarrow> p2_m gm | P2 \<Rightarrow> p1_m gm)
              @ cards_played gm @ [cm]
        \<and> cards_player (case active_player_m gm of
                          P1 \<Rightarrow> p1_m (turn_m gm) | P2 \<Rightarrow> p2_m (turn_m gm)) = restm
        \<and> cards_played (turn_m gm) = [])"
proof (rule conjI)
  show "cards_player (active g) = c # rest \<and> \<not> c > 0 \<and> face_card_active g
      \<and> remaining_penalties g - 1 = 0
    \<longrightarrow> tricks (turn g) = tricks g + 1 \<and> \<not> face_card_active (turn g)
        \<and> active_player (turn g) = active_player g
        \<and> cards_player (active (turn g)) = rest @ pile g @ [c]
        \<and> pile (turn g) = []"
    by (cases "active_player g")
       (simp_all add: turn_def active_def set_active_cards_def Let_def)
next
  show "cards_player (active_m gm) = cm # restm \<and> \<not> cm > 0 \<and> face_card_active_m gm
      \<and> remaining_turns_for_trick gm - 1 = 0
      \<and> id_player (p1_m gm) \<noteq> id_player (p2_m gm)
    \<longrightarrow> tricks_m (turn_m gm) = tricks_m gm + 1 \<and> \<not> face_card_active_m (turn_m gm)
        \<and> active_player_m (turn_m gm) \<noteq> active_player_m gm
        \<and> cards_player (active_m (turn_m gm)) =
            cards_player (case active_player_m gm of P1 \<Rightarrow> p2_m gm | P2 \<Rightarrow> p1_m gm)
              @ cards_played gm @ [cm]
        \<and> cards_player (case active_player_m gm of
                          P1 \<Rightarrow> p1_m (turn_m gm) | P2 \<Rightarrow> p2_m (turn_m gm)) = restm
        \<and> cards_played (turn_m gm) = []"
    by (cases "active_player_m gm")
       (simp_all add: turn_m_def active_m_def set_active_cards_m_def switch_player_m_def
          Let_def)
qed

theorem C1_trick_resolution_witness:
  "(cards_player (active g_after_jack) = 0 # replicate 25 0 \<and> face_card_active g_after_jack
      \<and> remaining_penalties g_after_jack - 1 = 0)
   \<and> (tricks (turn g_after_jack) = tricks g_after_jack + 1
      \<and> active_player (turn g_after_jack) = active_player g_after_jack
      \<and> cards_player (active (turn g_after_jack)) =
           replicate 25 0 @ pile g_after_jack @ [0]
      \<and> pile (turn g_after_jack) = [])
   \<and> (cards_player (active_m gm_after_jack) = 0 # replicate 25 0
      \<and> face_card_active_m gm_after_jack
      \<and> remaining_turns_for_trick gm_after_jack - 1 = 0
      \<and> id_player (p1_m gm_after_jack) \<noteq> id_player (p2_m gm_after_jack))
   \<and> (active_player_m (turn_m gm_after_jack) \<noteq> active_player_m gm_after_jack
      \<and> cards_played (turn_m gm_after_jack) = [])"
proof -
  have h1: "cards_player (active g_after_jack) = 0 # replicate 25 0 \<and> \<not> (0::int) > 0
      \<and> face_card_active g_after_jack \<and> remaining_penalties g_after_jack - 1 = 0"
    by code_simp
  have h2: "cards_player (active_m gm_after_jack) = 0 # replicate 25 0 \<and> \<not> (0::int) > 0
      \<and> face_card_active_m gm_after_jack
      \<and> remaining_turns_for_trick gm_after_jack - 1 = 0
      \<and> id_player (p1_m gm_after_jack) \<noteq> id_player (p2_m gm_after_jack)"
    by code_simp
  show ?thesis
    using h1 h2
      C1_trick_resolution [of g_after_jack 0 "replicate 25 0" gm_after_jack 0 "replicate 25 0"]
    by simp
qed

section \<open>Deck validation\<close>

lemma count_cards_result:
  "length counts = 5 \<Longrightarrow> \<forall>c \<in> set cs. 0 \<le> c \<and> c \<le> 4 \<Longrightarrow>
   \<exists>res. count_cards cs counts = Some res \<and> length res = 5
     \<and> (\<forall>i < 5. res ! i = counts ! i + int (count_list cs (int i)))"
proof (induction cs arbitrary: counts)
  case Nil
  then show ?case by simp
next
  case (Cons c cs)
  let ?counts = "counts[nat c := counts ! nat c + 1]"
  from Cons.prems have c: "0 \<le> c" "c \<le> 4" by auto
  from Cons.prems have "length ?counts = 5" "\<forall>c \<in> set cs. 0 \<le> c \<and> c \<le> 4" by auto
  from Cons.IH [OF this] obtain res where res: "count_cards cs ?counts = Some res"
    "length res = 5" "\<forall>i < 5. res ! i = ?counts ! i + int (count_list cs (int i))"
    by blast
  have "res ! i = counts ! i + int (count_list (c # cs) (int i))" if "i < 5" for i
  proof -
    have "i = nat c \<longleftrightarrow> c = int i" using c by auto
    with res(3) that Cons.prems(1) show ?thesis
      by (auto simp: nth_list_update)
  qed
  with res c show ?case by simp
qed

lemma count_cards_out_of_range:
  "\<exists>c \<in> set cs. c < 0 \<or> c > 4 \<Longrightarrow> count_cards cs counts = None"
  by (induction cs arbitrary: counts) auto

lemma is_valid_iff:
  "is_valid dk \<longleftrightarrow>
     length (cards dk) = 52 \<and> (\<forall>c \<in> set (cards dk). 0 \<le> c \<and> c \<le> 4)
     \<and> (\<forall>r \<in> {1, 2, 3, 4}. count_list (cards dk) r = 4)"
proof (cases "\<forall>c \<in> set (cards dk). 0 \<le> c \<and> c \<le> 4")
  case True
  from count_cards_result [OF _ True, of "replicate 5 0"]
  obtain res where res: "count_cards (cards dk) (replicate 5 0) = Some res"
    "\<forall>i < 5. res ! i = (replicate 5 (0::int)) ! i + int (count_list (cards dk) (int i))"
    by auto
  have r: "res ! i = int (count_list (cards dk) (int i))" if "i < 5" for i
    using res(2) that by simp
  have "list_ex (\<lambda>i. res ! i \<noteq> 4) [1 ..< 5] \<longleftrightarrow>
        \<not> (\<forall>r \<in> {1, 2, 3, 4}. count_list (cards dk) r = 4)"
  proof -
    have "[1 ..< 5] = [1, 2, 3, 4::nat]" by code_simp
    then show ?thesis
      using r [of 1] r [of 2] r [of 3] r [of 4] by auto
  qed
  with res(1) True show ?thesis
    by (auto simp: is_valid_def size_deck_def)
next
  case False
  then have "count_cards (cards dk) (replicate 5 0) = None"
    by (intro count_cards_out_of_range) (auto simp: not_le)
  with False show ?thesis by (auto simp: is_valid_def)
qed

text \<open>
  Claim C8, as stated, does not hold for every deck value: \<^verbatim>\<open>is_valid\<close> returns false as
  soon as a card lies outside 0..4. The deck \<open>rank5_deck\<close> has 52 cards and exactly four
  of each of the ranks 1 to 4, and \<^verbatim>\<open>is_valid\<close> rejects it.
\<close>

theorem C8_counterexample:
  "\<not> (is_valid rank5_deck \<longleftrightarrow>
        length (cards rank5_deck) = 52
        \<and> (\<forall>r \<in> {1, 2, 3, 4}. count_list (cards rank5_deck) r = 4))"
  by code_simp

text \<open>
  Claim C8, amended: \<^verbatim>\<open>is_valid()\<close> returns true if and only if the card sequence has
  length exactly 52, every card is a rank in 0..4, and each of the ranks 1, 2, 3 and 4
  occurs exactly 4 times. In particular, changing any single card of a valid deck so
  that some face rank occurs 3 or 5 times makes \<^verbatim>\<open>is_valid()\<close> return false.
\<close>

theorem C8_is_valid:
  "(is_valid dk \<longleftrightarrow>
      length (cards dk) = 52 \<and> (\<forall>c \<in> set (cards dk). 0 \<le> c \<and> c \<le> 4)
      \<and> (\<forall>r \<in> {1, 2, 3, 4}. count_list (cards dk) r = 4))
   \<and> (is_valid dk \<and> i < length (cards dk) \<and> r \<in> {1, 2, 3, 4}
        \<and> count_list ((cards dk)[i := c]) r \<in> {3, 5}
      \<longrightarrow> \<not> is_valid (dk\<lparr>cards := (cards dk)[i := c]\<rparr>))"
  by (auto simp: is_valid_iff)

theorem C8_is_valid_witness:
  "is_valid \<lparr>cards = faces_first_deck\<rparr>
   \<and> length (cards \<lparr>cards = faces_first_deck\<rparr>) = 52
   \<and> (0::nat) < length (cards \<lparr>cards = faces_first_deck\<rparr>)
   \<and> count_list ((cards \<lparr>cards = faces_first_deck\<rparr>)[0 := 0]) 1 \<in> {3, 5}
   \<and> \<not> is_valid (\<lparr>cards = faces_first_deck\<rparr>
                    \<lparr>cards := (cards \<lparr>cards = faces_first_deck\<rparr>)[0 := 0]\<rparr>)"
proof -
  have h: "length (cards \<lparr>cards = faces_first_deck\<rparr>) = 52
     \<and> (\<forall>c \<in> set (cards \<lparr>cards = faces_first_deck\<rparr>). 0 \<le> c \<and> c \<le> 4)
     \<and> (\<forall>r \<in> {1, 2, 3, 4}. count_list (cards \<lparr>cards = faces_first_deck\<rparr>) r = 4)
     \<and> (0::nat) < length (cards \<lparr>cards = faces_first_deck\<rparr>)
     \<and> (1::int) \<in> {1, 2, 3, 4}
     \<and> count_list ((cards \<lparr>cards = faces_first_deck\<rparr>)[0 := 0]) 1 \<in> {3, 5}"
    by code_simp
  show ?thesis
    using h C8_is_valid [of "\<lparr>cards = faces_first_deck\<rparr>" 0 1 0]
    by blast
qed

section \<open>Serialisation\<close>

lemma rank_of_char_of_rank: "0 \<le> c \<Longrightarrow> c \<le> 4 \<Longrightarrow> rank_of_char (char_of_rank c) = c"
  by (auto simp: rank_of_char_def char_of_rank_def)

lemma fold_assign_prefix:
  "n \<le> length cs \<Longrightarrow> n \<le> length str \<Longrightarrow>
   fold (\<lambda>i cs. cs[i := f (str ! i)]) [0 ..< n] cs = map f (take n str) @ drop n cs"
proof (induction n)
  case 0
  then show ?case by simp
next
  case (Suc n)
  then have "fold (\<lambda>i cs. cs[i := f (str ! i)]) [0 ..< Suc n] cs
      = (map f (take n str) @ drop n cs)[n := f (str ! n)]"
    by simp
  also have "\<dots> = map f (take n str) @ (drop n cs)[0 := f (str ! n)]"
    using Suc.prems by (simp add: list_update_append)
  also have "drop n cs = cs ! n # drop (Suc n) cs"
    using Suc.prems by (simp add: Cons_nth_drop_Suc)
  finally show ?case
    using Suc.prems by (simp add: take_Suc_conv_app_nth)
qed

lemma from_string_full:
  "length str = size_deck \<Longrightarrow> cards (from_string str) = map rank_of_char str"
  by (simp add: from_string_def deck_ctor_def Let_def fold_assign_prefix)

text \<open>
  Claim C9: for every deck whose 52 cards all have ranks in 0..4, the string written by
  \<^verbatim>\<open>operator<<\<close> has 52 characters and \<^verbatim>\<open>from_string\<close> of it is the deck itself, card for
  card.
\<close>

theorem C9_round_trip:
  "length (cards dk) = 52 \<and> (\<forall>c \<in> set (cards dk). c \<in> {0, 1, 2, 3, 4})
   \<Longrightarrow> length (deck_to_string dk) = 52 \<and> from_string (deck_to_string dk) = dk"
proof -
  assume h: "length (cards dk) = 52 \<and> (\<forall>c \<in> set (cards dk). c \<in> {0, 1, 2, 3, 4})"
  then have len: "length (deck_to_string dk) = size_deck"
    by (simp add: deck_to_string_def size_deck_def)
  have "map rank_of_char (deck_to_string dk) = cards dk"
    unfolding deck_to_string_def map_map
  proof (rule map_idI)
    fix c assume "c \<in> set (cards dk)"
    with h have "0 \<le> c" "c \<le> 4" by auto
    then show "(rank_of_char \<circ> char_of_rank) c = c" by (simp add: rank_of_char_of_rank)
  qed
  with len have "cards (from_string (deck_to_string dk)) = cards dk"
    by (simp add: from_string_full)
  moreover have "deck.more (from_string (deck_to_string dk)) = deck.more dk"
    by simp
  ultimately have "from_string (deck_to_string dk) = dk"
    by (simp add: deck.equality)
  with len show ?thesis by (simp add: size_deck_def)
qed

theorem C9_round_trip_witness:
  "length (cards \<lparr>cards = faces_first_deck\<rparr>) = 52
   \<and> from_string (deck_to_string \<lparr>cards = faces_first_deck\<rparr>) = \<lparr>cards = faces_first_deck\<rparr>"
proof -
  have h: "length (cards \<lparr>cards = faces_first_deck\<rparr>) = 52
     \<and> (\<forall>c \<in> set (cards \<lparr>cards = faces_first_deck\<rparr>). c \<in> {0, 1, 2, 3, 4})"
    by code_simp
  show ?thesis
    using h C9_round_trip [OF h] by blast
qed

section \<open>Card conservation\<close>

lemma total_cards_turn: "total_cards (turn g) = total_cards g"
  by (cases "active_player g")
     (simp_all add: total_cards_def turn_def active_def set_active_cards_def switch_player_def
        Let_def split: list.splits)

lemma total_cards_funpow: "total_cards ((turn ^^ n) g) = total_cards g"
  by (induction n) (simp_all add: total_cards_turn)

lemma total_cards_seen_states [simp]: "total_cards (g\<lparr>seen_states := S\<rparr>) = total_cards g"
  by (simp add: total_cards_def)

lemma total_cards_play_loop: "total_cards (snd (play_loop g)) = total_cards g"
proof (induction g rule: play_loop.induct)
  case (1 g)
  consider (stop) "is_game_over g \<or> \<not> cards_played_total g < max_moves g"
    | (cycle) "\<not> is_game_over g" "cards_played_total g < max_moves g"
        "(cards_player (p1 g), cards_player (p2 g)) \<in> seen_states g"
    | (continue) "\<not> is_game_over g" "cards_played_total g < max_moves g"
        "(cards_player (p1 g), cards_player (p2 g)) \<notin> seen_states g"
    by blast
  then show ?case
  proof cases
    case stop
    then show ?thesis by (simp add: play_loop_stop)
  next
    case cycle
    then show ?thesis by (simp add: play_loop_cycle)
  next
    case continue
    with "1.IH" [OF _ refl] show ?thesis
      by (simp add: play_loop_continue total_cards_turn)
  qed
qed

lemma total_cards_start:
  "total_cards (start g) = length (cards (d g))"
  by (simp add: total_cards_def start_def split_cards_def Let_def)

lemma hands_start:
  "length (cards (d g)) = 52 \<Longrightarrow>
   length (cards_player (p1 (start g))) = 26 \<and> length (cards_player (p2 (start g))) = 26
   \<and> pile (start g) = []"
  by (simp add: start_def split_cards_def Let_def)

text \<open>
  Claim C6: a run that starts from a 52-card deck gives 26 cards to each player, and after
  any number of turns, as well as in the state in which \<^verbatim>\<open>play()\<close> leaves its loop, the
  two hands and the pile hold exactly 52 cards together; every call of \<^verbatim>\<open>turn()\<close>, in
  any state, preserves that total.
\<close>

theorem C6_card_conservation:
  "length (cards dk) = 52 \<Longrightarrow>
     length (cards_player (p1 (start (game_ctor dk lim vb)))) = 26
   \<and> length (cards_player (p2 (start (game_ctor dk lim vb)))) = 26
   \<and> total_cards ((turn ^^ n) (start (game_ctor dk lim vb))) = 52
   \<and> total_cards (snd (play_loop (start (game_ctor dk lim vb)))) = 52
   \<and> total_cards (turn g) = total_cards g"
  using hands_start [of "game_ctor dk lim vb"]
  by (simp add: total_cards_funpow total_cards_play_loop total_cards_start total_cards_turn
      game_ctor_def)

theorem C6_card_conservation_witness:
  "length (cards \<lparr>cards = faces_first_deck\<rparr>) = 52
   \<and> total_cards ((turn ^^ 7) (start (game_ctor \<lparr>cards = faces_first_deck\<rparr> 1000000 False))) = 52
   \<and> total_cards (snd (play_loop (start (game_ctor \<lparr>cards = faces_first_deck\<rparr> 1000000 False))))
       = 52
   \<and> total_cards (turn g_after_jack) = total_cards g_after_jack"
proof -
  have h: "length (cards \<lparr>cards = faces_first_deck\<rparr>) = 52"
    by code_simp
  show ?thesis
    using h C6_card_conservation [OF h, of 1000000 False 7 g_after_jack] by simp
qed

section \<open>Outcome of a run\<close>

lemma play_loop_exit:
  "(fst (play_loop g) \<longrightarrow>
      \<not> is_game_over (snd (play_loop g))
      \<and> cards_played_total (snd (play_loop g)) < max_moves (snd (play_loop g)))
   \<and> (\<not> fst (play_loop g) \<longrightarrow>
      is_game_over (snd (play_loop g))
      \<or> max_moves (snd (play_loop g)) \<le> cards_played_total (snd (play_loop g)))
   \<and> max_moves (snd (play_loop g)) = max_moves g"
proof (induction g rule: play_loop.induct)
  case (1 g)
  consider (stop) "is_game_over g \<or> \<not> cards_played_total g < max_moves g"
    | (cycle) "\<not> is_game_over g" "cards_played_total g < max_moves g"
        "(cards_player (p1 g), cards_player (p2 g)) \<in> seen_states g"
    | (continue) "\<not> is_game_over g" "cards_played_total g < max_moves g"
        "(cards_player (p1 g), cards_player (p2 g)) \<notin> seen_states g"
    by blast
  then show ?case
  proof cases
    case stop
    then show ?thesis by (auto simp: play_loop_stop)
  next
    case cycle
    then show ?thesis by (simp add: play_loop_cycle)
  next
    case continue
    let ?g = "turn (g\<lparr>seen_states :=
        insert (cards_player (p1 g), cards_player (p2 g)) (seen_states g)\<rparr>)"
    have eq: "play_loop g = play_loop ?g"
      using continue by (rule play_loop_continue)
    have mm: "max_moves ?g = max_moves g"
      by (simp add: max_moves_turn)
    from continue "1.IH" [OF _ refl] show ?thesis
      unfolding eq mm by blast
  qed
qed

lemma play_imp_loop_exit:
  "(case play_imp_loop g of
      Inl r \<Rightarrow> fst r = - 1
    | Inr g' \<Rightarrow> (is_game_over g' \<or> max_moves g' \<le> cards_played_total g')
        \<and> max_moves g' = max_moves g
        \<and> id_player (p1 g') = id_player (p1 g) \<and> id_player (p2 g') = id_player (p2 g))"
proof (induction g rule: play_imp_loop.induct)
  case (1 g)
  consider (stop) "is_game_over g \<or> \<not> cards_played_total g < max_moves g"
    | (cycle) "\<not> is_game_over g" "cards_played_total g < max_moves g"
        "(cards_player (p1 g), cards_player (p2 g)) \<in> seen_states g"
    | (continue) "\<not> is_game_over g" "cards_played_total g < max_moves g"
        "(cards_player (p1 g), cards_player (p2 g)) \<notin> seen_states g"
    by blast
  then show ?case
  proof cases
    case stop
    then show ?thesis by (auto simp: play_imp_loop_stop)
  next
    case cycle
    then show ?thesis by (simp add: play_imp_loop_cycle)
  next
    case continue
    let ?g = "turn (g\<lparr>seen_states :=
        insert (cards_player (p1 g), cards_player (p2 g)) (seen_states g)\<rparr>)"
    have ids: "id_player (p1 ?g) = id_player (p1 g) \<and> id_player (p2 ?g) = id_player (p2 g)"
      by (cases "active_player g")
         (simp_all add: turn_def active_def set_active_cards_def switch_player_def Let_def
            split: list.splits)
    have eq: "play_imp_loop g = play_imp_loop ?g"
      using continue by (rule play_imp_loop_continue)
    have mm: "max_moves ?g = max_moves g"
      by (simp add: max_moves_turn)
    from continue "1.IH" [OF _ refl] ids show ?thesis
      unfolding eq by (auto simp: mm split: sum.splits)
  qed
qed

text \<open>
  Claim C4, as stated, does not hold: the three categories are not mutually exclusive.
  On the valid deck \<open>faces_first_deck\<close> with move limit 101, the 101st card empties
  player 2's hand: \<^verbatim>\<open>play()\<close> returns winner 1 with \<^verbatim>\<open>moves_played\<close> equal to the limit, so
  the run has reached the move limit and reports a winner.
\<close>

theorem C4_counterexample:
  "is_valid \<lparr>cards = faces_first_deck\<rparr>
   \<and> play win_at_limit_game = (1, 101, 13, False)
   \<and> max_moves win_at_limit_game = 101
   \<and> winner_determined win_at_limit_game
   \<and> limit_reached win_at_limit_game
   \<and> \<not> cycle_detected win_at_limit_game"
proof -
  have v: "is_valid \<lparr>cards = faces_first_deck\<rparr>" by code_simp
  have p: "play win_at_limit_game = (1, 101, 13, False)" by code_simp
  have m: "max_moves win_at_limit_game = 101" by code_simp
  show ?thesis
    using v p m
    by (simp add: winner_determined_def limit_reached_def cycle_detected_def)
qed

text \<open>
  Claim C4, amended: every run of test-suite.cpp's \<^verbatim>\<open>play()\<close>, from any state and with any
  move limit, returns, and its record falls into exactly one of three categories: a
  winner is reported (exactly when some hand is empty at the end; the winner is then 1
  or 2), a cycle is reported, or neither, and then the move limit has been reached with
  neither hand empty. A cycled run reports no winner (winner - 1) and has not reached
  the limit; a run with a winner is not cycled; a run that reaches the limit without
  emptying a hand reports no winner. A run whose last card both empties a hand and
  reaches the limit is reported as a win: reaching the limit and having a winner are
  not exclusive.
\<close>

theorem C4_outcomes:
  "(winner_determined g \<or> cycle_detected g
      \<or> (limit_reached g \<and> \<not> is_game_over (snd (play_loop g))))
   \<and> \<not> (winner_determined g \<and> cycle_detected g)
   \<and> \<not> (winner_determined g \<and> limit_reached g \<and> \<not> is_game_over (snd (play_loop g)))
   \<and> \<not> (cycle_detected g \<and> limit_reached g)
   \<and> (\<not> winner_determined g \<and> \<not> cycle_detected g
        \<longleftrightarrow> limit_reached g \<and> \<not> is_game_over (snd (play_loop g)))
   \<and> (winner_determined g \<longleftrightarrow> is_game_over (snd (play_loop g)))
   \<and> (winner_determined g \<longleftrightarrow> fst (play g) \<in> {1, 2})
   \<and> (winner_determined g \<longleftrightarrow> fst (play g) \<noteq> - 1)
   \<and> (fst (play g) = 2 \<longleftrightarrow> cards_player (p1 (snd (play_loop g))) = [])
   \<and> (cycle_detected g \<longleftrightarrow> fst (play_loop g))
   \<and> fst (snd (play g)) = cards_played_total (snd (play_loop g))
   \<and> fst (snd (snd (play g))) = tricks (snd (play_loop g))"
  using play_loop_exit [of g]
  by (cases "play_loop g")
     (auto simp: winner_determined_def cycle_detected_def limit_reached_def play_def Let_def
        is_game_over_def)

theorem C4_outcomes_witness:
  "winner_determined jack_game \<and> \<not> cycle_detected jack_game
   \<and> is_game_over (snd (play_loop jack_game))
   \<and> cycle_detected false_cycle_game \<and> \<not> winner_determined false_cycle_game
   \<and> \<not> limit_reached false_cycle_game
   \<and> limit_reached limit_run \<and> \<not> is_game_over (snd (play_loop limit_run))
   \<and> \<not> winner_determined limit_run \<and> \<not> cycle_detected limit_run
   \<and> fst (play limit_run) = - 1"
proof -
  have w: "winner_determined jack_game" by code_simp
  have c: "cycle_detected false_cycle_game" by code_simp
  have l: "limit_reached limit_run \<and> \<not> is_game_over (snd (play_loop limit_run))"
    by code_simp
  have 1: "\<not> cycle_detected jack_game \<and> is_game_over (snd (play_loop jack_game))"
    using w C4_outcomes [of jack_game] by blast
  have 2: "\<not> winner_determined false_cycle_game \<and> \<not> limit_reached false_cycle_game"
    using c C4_outcomes [of false_cycle_game] by blast
  have 3: "\<not> winner_determined limit_run \<and> \<not> cycle_detected limit_run
      \<and> fst (play limit_run) = - 1"
    using l C4_outcomes [of limit_run] by blast
  show ?thesis
    using w c l 1 2 3 by blast
qed

text \<open>
  Claim C7: when main-imp.cpp's \<^verbatim>\<open>play()\<close> leaves its loop with neither hand empty, the
  move counter has reached the limit and the returned winner is the id of the current
  active player (1 or 2 for the players the constructor makes), while test-suite.cpp's
  \<^verbatim>\<open>play()\<close> returns winner - 1 in the same situation and reports a winner only when a
  hand is empty.
\<close>

theorem C7_winner_on_limit:
  "(play_imp_loop g = Inr g' \<and> \<not> is_game_over g'
      \<longrightarrow> max_moves g \<le> cards_played_total g'
        \<and> play_imp g = (id_player (active g'), cards_played_total g', tricks g', d g')
        \<and> (id_player (p1 g) = 1 \<and> id_player (p2 g) = 2 \<longrightarrow> fst (play_imp g) \<in> {1, 2}))
   \<and> (play_loop h = (False, h') \<and> \<not> is_game_over h'
      \<longrightarrow> max_moves h \<le> cards_played_total h'
        \<and> play h = (- 1, cards_played_total h', tricks h', False))
   \<and> (fst (play h) \<noteq> - 1 \<longleftrightarrow> is_game_over (snd (play_loop h)))"
proof (intro conjI impI)
  assume a: "play_imp_loop g = Inr g' \<and> \<not> is_game_over g'"
  with play_imp_loop_exit [of g] show "max_moves g \<le> cards_played_total g'" by simp
  from a show "play_imp g = (id_player (active g'), cards_played_total g', tricks g', d g')"
    by (simp add: play_imp_def)
  assume "id_player (p1 g) = 1 \<and> id_player (p2 g) = 2"
  with a play_imp_loop_exit [of g] show "fst (play_imp g) \<in> {1, 2}"
    by (cases "active_player g'") (simp_all add: play_imp_def active_def)
next
  assume a: "play_loop h = (False, h') \<and> \<not> is_game_over h'"
  with play_loop_exit [of h] show "max_moves h \<le> cards_played_total h'" by simp
  from a show "play h = (- 1, cards_played_total h', tricks h', False)"
    by (simp add: play_def)
next
  show "fst (play h) \<noteq> - 1 \<longleftrightarrow> is_game_over (snd (play_loop h))"
    by (cases "play_loop h") (simp add: play_def Let_def)
qed

theorem C7_winner_on_limit_witness:
  "play_imp_loop limit_run_imp = Inr (projr (play_imp_loop limit_run_imp))
   \<and> \<not> is_game_over (projr (play_imp_loop limit_run_imp))
   \<and> id_player (p1 limit_run_imp) = 1 \<and> id_player (p2 limit_run_imp) = 2
   \<and> max_moves limit_run_imp \<le> cards_played_total (projr (play_imp_loop limit_run_imp))
   \<and> fst (play_imp limit_run_imp) = id_player (active (projr (play_imp_loop limit_run_imp)))
   \<and> fst (play_imp limit_run_imp) = 2
   \<and> play_loop limit_run = (False, snd (play_loop limit_run))
   \<and> \<not> is_game_over (snd (play_loop limit_run))
   \<and> fst (play limit_run) = - 1"
proof -
  have "\<not> isl (play_imp_loop limit_run_imp)" by code_simp
  then have h1: "play_imp_loop limit_run_imp = Inr (projr (play_imp_loop limit_run_imp))"
    by simp
  have h2: "\<not> is_game_over (projr (play_imp_loop limit_run_imp))
      \<and> id_player (p1 limit_run_imp) = 1 \<and> id_player (p2 limit_run_imp) = 2
      \<and> fst (play_imp limit_run_imp) = 2"
    by code_simp
  have "\<not> fst (play_loop limit_run)" by code_simp
  then have h3: "play_loop limit_run = (False, snd (play_loop limit_run))"
    by (cases "play_loop limit_run") simp
  have h4: "\<not> is_game_over (snd (play_loop limit_run))" by code_simp
  show ?thesis
    using h1 h2 h3 h4
      C7_winner_on_limit [of limit_run_imp "projr (play_imp_loop limit_run_imp)"
        limit_run "snd (play_loop limit_run)"]
    by simp
qed

section \<open>The last card as the last penalty payment\<close>

lemma turns_funpow: "turns n g = (turn ^^ n) g"
  by (induction n arbitrary: g) (simp_all add: funpow_swap1)

lemma penalty_has_pile_turn: "penalty_has_pile g \<Longrightarrow> penalty_has_pile (turn g)"
  by (cases "active_player g")
     (simp_all add: penalty_has_pile_def turn_def active_def set_active_cards_def
        switch_player_def Let_def split: list.splits)

lemma penalty_has_pile_funpow: "penalty_has_pile g \<Longrightarrow> penalty_has_pile ((turn ^^ n) g)"
  by (induction n) (simp_all add: penalty_has_pile_turn)

lemma penalty_has_pile_seen_states:
  "penalty_has_pile (g\<lparr>seen_states := S\<rparr>) = penalty_has_pile g"
  by (simp add: penalty_has_pile_def)

lemma penalty_has_pile_start: "penalty_has_pile (start g)"
  by (simp add: penalty_has_pile_def start_def)

lemma penalty_has_pile_start_imp: "penalty_has_pile (start_imp sh g)"
  by (simp add: penalty_has_pile_def start_imp_def)

lemma last_penalty_card:
  assumes "penalty_has_pile g" "face_card_active g" "remaining_penalties g = 1"
    "cards_player (active g) = [c]" "\<not> c > 0"
  shows "cards_player (active (turn g)) = pile g @ [c]
     \<and> length (cards_player (active (turn g))) = length (pile g) + 1
     \<and> 2 \<le> length (cards_player (active (turn g)))
     \<and> pile (turn g) = []
     \<and> active_player (turn g) = active_player g
     \<and> cards_player (active (turn g)) \<noteq> []
     \<and> (is_game_over (turn g) \<longleftrightarrow> is_game_over g)"
proof -
  from assms(1,2) have "pile g \<noteq> []" by (simp add: penalty_has_pile_def)
  then have "1 \<le> length (pile g)" by (cases "pile g") simp_all
  with assms(2-) show ?thesis
    by (cases "active_player g")
       (simp_all add: turn_def active_def set_active_cards_def Let_def is_game_over_def)
qed

text \<open>
  Claim C10: in every state reached by turns from a started game (of test-suite.cpp or
  of main-imp.cpp, whatever pairs of hands \<^verbatim>\<open>play()\<close> has recorded in \<open>seen_states\<close>) in
  which a penalty is active with one payment left and the active player's hand is a
  single non-face card, \<^verbatim>\<open>turn()\<close> leaves that player active with a
  hand made of the former pile followed by the card just played, of size former pile
  size plus 1, which is at least 2; the pile is empty, and the turn does not change
  whether the game is over (the other hand is untouched).
\<close>

theorem C10_last_card_as_last_penalty:
  "g = ((turn ^^ n) (start (game_ctor dk lim vb)))\<lparr>seen_states := S\<rparr>
   \<or> g = ((turn ^^ n) (start_imp sh game_imp_ctor))\<lparr>seen_states := S\<rparr>
   \<Longrightarrow> face_card_active g \<and> remaining_penalties g = 1
       \<and> cards_player (active g) = [c] \<and> \<not> c > 0
   \<Longrightarrow> cards_player (active (turn g)) = pile g @ [c]
     \<and> length (cards_player (active (turn g))) = length (pile g) + 1
     \<and> 2 \<le> length (cards_player (active (turn g)))
     \<and> pile (turn g) = []
     \<and> active_player (turn g) = active_player g
     \<and> cards_player (active (turn g)) \<noteq> []
     \<and> (is_game_over (turn g) \<longleftrightarrow> is_game_over g)"
proof -
  assume r: "g = ((turn ^^ n) (start (game_ctor dk lim vb)))\<lparr>seen_states := S\<rparr>
             \<or> g = ((turn ^^ n) (start_imp sh game_imp_ctor))\<lparr>seen_states := S\<rparr>"
  assume h: "face_card_active g \<and> remaining_penalties g = 1
       \<and> cards_player (active g) = [c] \<and> \<not> c > 0"
  from r have "penalty_has_pile g"
    by (auto simp: penalty_has_pile_seen_states penalty_has_pile_funpow penalty_has_pile_start
        penalty_has_pile_start_imp)
  with h show ?thesis by (intro last_penalty_card) simp_all
qed

theorem C10_last_card_as_last_penalty_witness:
  "g_last_card =
     ((turn ^^ 51) (start (game_ctor (from_string last_card_deck_string) 1000000 False)))
       \<lparr>seen_states := seen_states g_last_card\<rparr>
   \<and> face_card_active g_last_card \<and> remaining_penalties g_last_card = 1
   \<and> cards_player (active g_last_card) = [0]
   \<and> cards_player (active (turn g_last_card)) = pile g_last_card @ [0]
   \<and> length (pile g_last_card) = 39
   \<and> 2 \<le> length (cards_player (active (turn g_last_card)))
   \<and> pile (turn g_last_card) = []
   \<and> active_player (turn g_last_card) = active_player g_last_card"
proof -
  have "g_last_card =
     (turn ^^ 51) (start (game_ctor (from_string last_card_deck_string) 1000000 False))"
    by (simp add: g_last_card_def turns_funpow)
  then have r: "g_last_card =
     ((turn ^^ 51) (start (game_ctor (from_string last_card_deck_string) 1000000 False)))
       \<lparr>seen_states := seen_states g_last_card\<rparr>"
    by simp
  have h: "face_card_active g_last_card \<and> remaining_penalties g_last_card = 1
       \<and> cards_player (active g_last_card) = [0] \<and> \<not> (0::int) > 0"
    by code_simp
  have l: "length (pile g_last_card) = 39"
    by code_simp
  show ?thesis
    using r h l C10_last_card_as_last_penalty [OF disjI1 [OF r] h]
    by simp
qed

section \<open>The deck with a single Jack\<close>

text \<open>
  Claim C3, as stated, does not hold of test-suite.cpp: after player 2 has paid the single
  penalty card, it is player 2 (the active player) who takes the pile of 2 cards.
  Player 1 is left with 25 plain cards and does not hold the Jack.
\<close>

theorem C3_counterexample:
  "active_player g_after_jack = P2
   \<and> (let g = turn g_after_jack
      in 1 \<notin> set (cards_player (p1 g)) \<and> length (cards_player (p1 g)) = 25
       \<and> cards_player (p2 g) = replicate 25 0 @ [1, 0])"
  by code_simp

text \<open>
  Claim C3, amended: on the deck \<^verbatim>\<open>"J" + "-"*51\<close>, player 1 leads with the Jack, player 2
  pays 1 penalty card, the trick resolves immediately after that single card, and
  player 2 (the payer) collects the pile of 2 cards at the back of its hand and stays
  active; the game then terminates after 52 moves and 1 trick with player 1's hand
  empty: \<^verbatim>\<open>play()\<close> returns winner 2 and no cycle.
\<close>

theorem C3_jack_deck:
  "active_player jack_game = P1
   \<and> hd (cards_player (p1 jack_game)) = 1
   \<and> (let g = turn jack_game
      in pile g = [1] \<and> face_card_active g \<and> remaining_penalties g = 1
       \<and> active_player g = P2)
   \<and> (let g = turn (turn jack_game)
      in tricks g = 1 \<and> \<not> face_card_active g \<and> pile g = [] \<and> active_player g = P2
       \<and> cards_player (p2 g) = replicate 25 0 @ [1, 0]
       \<and> cards_player (p1 g) = replicate 25 0)
   \<and> play jack_game = (2, 52, 1, False)
   \<and> (let g = snd (play_loop jack_game)
      in cards_player (p1 g) = [] \<and> cards_player (p2 g) = [1, 0])"
  by code_simp

section \<open>Cycle detection\<close>

text \<open>
  Claim C2 fails on the valid deck \<open>false_cycle_deck_string\<close>: \<^verbatim>\<open>play()\<close> of test-suite.cpp
  stops after 57 moves and reports a cycle, because the pair of hands at that point was
  seen before (after 55 moves, when it was the other player's turn). The game is not
  over there, yet two more calls of \<^verbatim>\<open>turn()\<close> from that state empty player 2's hand.
\<close>

theorem C2_false_cycle:
  "is_valid (from_string false_cycle_deck_string)
   \<and> (let a = turns 55 false_cycle_game; b = turns 57 false_cycle_game
      in cards_player (p1 a) = cards_player (p1 b) \<and> cards_player (p2 a) = cards_player (p2 b)
       \<and> active_player a = P2 \<and> active_player b = P1)
   \<and> play false_cycle_game = (- 1, 57, 5, True)
   \<and> (let g = snd (play_loop false_cycle_game)
      in \<not> is_game_over g
       \<and> (cards_player (p1 g), cards_player (p2 g)) \<in> seen_states g
       \<and> cards_player (p2 (turn (turn g))) = []
       \<and> is_game_over (turn (turn g)))"
  by code_simp

section \<open>The running best of the batch harness\<close>

lemma high_score_collect_results:
  "high_score (collect_results h rs) = fold max (recorded_moves rs) (high_score h)"
  unfolding collect_results_def
proof (induction rs arbitrary: h)
  case Nil
  then show ?case by simp
next
  case (Cons r rs)
  show ?case
  proof (cases r)
    case Failed
    then show ?thesis by (simp add: Cons.IH)
  next
    case (Ready x)
    obtain w n t gd where x: "x = (w, n, t, gd)" by (cases x)
    show ?thesis by (simp add: Ready x Cons.IH Let_def max.commute)
  qed
qed

lemma set_recorded_moves:
  "set (recorded_moves rs) = {n. \<exists>w t gd. Ready (w, n, t, gd) \<in> set rs \<and> w > 0}"
proof (induction rs rule: recorded_moves.induct)
  case 1
  then show ?case by simp
next
  case (2 rs)
  then show ?case by simp
next
  case (3 winner n trk game_deck rs)
  show ?case
  proof (cases "winner > 0")
    case True
    have "{m. \<exists>w t gd. Ready (w, m, t, gd) \<in> set (Ready (winner, n, trk, game_deck) # rs) \<and> w > 0}
        = insert n {m. \<exists>w t gd. Ready (w, m, t, gd) \<in> set rs \<and> w > 0}"
      using True by auto
    with True "3.IH" show ?thesis by simp
  next
    case False
    have "{m. \<exists>w t gd. Ready (w, m, t, gd) \<in> set (Ready (winner, n, trk, game_deck) # rs) \<and> w > 0}
        = {m. \<exists>w t gd. Ready (w, m, t, gd) \<in> set rs \<and> w > 0}"
      using False by auto
    with False "3.IH" show ?thesis by simp
  qed
qed

text \<open>
  Claim C5, as stated, does not hold: a result that comes back with winner - 1 (a run
  stopped as a cycle) never updates the best. The run on \<open>false_cycle_deck_string\<close>
  returns winner - 1 after 57 moves; processed as the only result it exceeds the current
  best 0, yet the best stays 0 and no line is appended.
\<close>

theorem C5_counterexample:
  "(let r = cycled_result; h = collect_results harness_init [Ready r]
    in fst r = - 1 \<and> fst (snd r) = 57 \<and> high_score harness_init < fst (snd r)
       \<and> high_score h = 0 \<and> file_lines h = [] \<and> games_completed h = 1)"
  by code_simp

text \<open>
  Claim C5, amended: for every finite sequence of results processed by the collection
  loop, the running best is updated (and exactly one record line appended to the log)
  precisely when a result reports a winner (\<^verbatim>\<open>winner > 0\<close>, so not a run stopped as a cycle)
  and its move count strictly exceeds the current best; ties do not replace, and a
  failed task changes nothing. After processing all results the recorded best equals
  the maximum of the initial best and the move counts of the results that report a
  winner, independent of the order in which results are processed.
\<close>

theorem C5_running_best:
  "(let h' = collect h (Ready (w, n, t, gd))
    in (w > 0 \<and> n > high_score h
          \<longrightarrow> high_score h' = n \<and> file_lines h' = file_lines h @ [(n, t, w, deck_to_string gd)])
     \<and> (\<not> (w > 0 \<and> n > high_score h)
          \<longrightarrow> high_score h' = high_score h \<and> file_lines h' = file_lines h))
   \<and> collect h Failed = h
   \<and> high_score (collect_results h rs) = Max (set (high_score h # recorded_moves rs))
   \<and> (mset rs' = mset rs
        \<longrightarrow> high_score (collect_results h rs') = high_score (collect_results h rs))"
proof -
  have best: "high_score (collect_results h xs) = Max (set (high_score h # recorded_moves xs))"
    for xs
    by (simp only: high_score_collect_results Max.set_eq_fold)
  have "set (recorded_moves rs') = set (recorded_moves rs)" if "mset rs' = mset rs"
    using mset_eq_setD [OF that] by (simp add: set_recorded_moves)
  then have "mset rs' = mset rs
     \<longrightarrow> high_score (collect_results h rs') = high_score (collect_results h rs)"
    by (simp add: best)
  with best [of rs] show ?thesis by (simp add: Let_def)
qed

theorem C5_running_best_witness:
  "(0 < (2::int) \<and> high_score harness_init < 52)
   \<and> high_score (collect harness_init (Ready (2, 52, 1, from_string jack_deck_string))) = 52
   \<and> \<not> (0 < (- 1::int) \<and> high_score harness_init < 57)
   \<and> file_lines (collect harness_init (Ready (- 1, 57, 5, deck_ctor))) = file_lines harness_init
   \<and> mset (rev sample_results) = mset sample_results
   \<and> high_score (collect_results harness_init (rev sample_results)) = 80
   \<and> high_score (collect_results harness_init sample_results) = 80"
proof -
  have h1: "0 < (2::int) \<and> high_score harness_init < 52"
    by (simp add: harness_init_def)
  have h2: "\<not> (0 < (- 1::int) \<and> high_score harness_init < 57)"
    by simp
  have h3: "mset (rev sample_results) = mset sample_results"
    by simp
  have h4: "Max (set (high_score harness_init # recorded_moves sample_results)) = 80"
    by code_simp
  show ?thesis
    using h1 h2 h3 h4
      C5_running_best [of harness_init 2 52 1 "from_string jack_deck_string"
        sample_results "rev sample_results"]
      C5_running_best [of harness_init "- 1" 57 5 deck_ctor sample_results sample_results]
    by (simp add: Let_def)
qed

end
